theory Spec2Isabelle
  imports Complex_Main "HOL-Library.Sublist"
begin

section \<open>Connection lifecycle of the signaling server (src/server/main.py)\<close>

text \<open>
  The server keeps two module-level objects: the set \<open>pcs\<close> of live peer connections and
  one \<open>MediaRelay\<close>. Connection objects are compared by identity, so a connection is
  modelled by its position in the store \<open>conns\<close> of every connection created so far, and
  \<open>pcs\<close> is a set of such positions. Each handler runs on one event loop; it is modelled as
  one state transformer, print statements left out. Calls into the transport library
  (aiortc) are parameters of the model, collected in the record \<open>transport\<close>: each says
  whether the call returns or raises.
\<close>

subsection \<open>Tracks and the pass-through track\<close>

record MediaStreamTrack =
  track_id :: nat
  kind :: string

text \<open>The proxy returned by \<open>relay.subscribe(track)\<close>: it refers to its source track.\<close>

datatype RelayStreamTrack = RelayStreamTrack MediaStreamTrack

text \<open>
  \<open>class VideoTransformTrack(MediaStreamTrack)\<close>, with \<open>kind = "video"\<close>: the constructor
  stores the wrapped track and the name of the transform.
\<close>

record 'a VideoTransformTrack =
  track :: 'a
  transform :: string

definition VideoTransformTrack_init :: "'a \<Rightarrow> string \<Rightarrow> 'a VideoTransformTrack" where
  "VideoTransformTrack_init t tf = \<lparr>track = t, transform = tf\<rparr>"

text \<open>
  \<open>recv\<close>: awaits \<open>self.track.recv()\<close> and returns the frame. The wrapped track's own
  \<open>recv\<close> is the parameter \<open>src_recv\<close>: it raises (\<open>Inl\<close>) or yields a frame and the
  advanced source.
\<close>

definition recv ::
  "('a \<Rightarrow> 'e + 'f \<times> 'a) \<Rightarrow> 'a VideoTransformTrack \<Rightarrow> 'e + 'f \<times> 'a VideoTransformTrack" where
  "recv src_recv self =
     (case src_recv (track self) of
        Inl e \<Rightarrow> Inl e
      | Inr (frame, t') \<Rightarrow> Inr (frame, self\<lparr>track := t'\<rparr>))"

subsection \<open>Peer connections and the server state\<close>

text \<open>
  What the handlers read and write of an \<open>RTCPeerConnection\<close>: its \<open>connectionState\<close>, the
  two event handlers registered with \<open>@pc.on(...)\<close>, and the tracks given to \<open>addTrack\<close>.
  \<open>close_calls\<close> counts the calls of \<open>pc.close()\<close>.
\<close>

record RTCPeerConnection =
  connectionState :: string
  on_connectionstatechange_set :: bool
  on_track_set :: bool
  senders :: "RelayStreamTrack VideoTransformTrack list"
  close_calls :: nat

definition RTCPeerConnection_init :: RTCPeerConnection where
  "RTCPeerConnection_init =
     \<lparr>connectionState = ''new'', on_connectionstatechange_set = False, on_track_set = False,
      senders = [], close_calls = 0\<rparr>"

record server =
  conns :: "RTCPeerConnection list"
  pcs :: "nat set"
  relay :: "MediaStreamTrack list"

text \<open>\<open>pcs = set()\<close> and \<open>relay = MediaRelay()\<close> at import time.\<close>

definition server_init :: server where
  "server_init = \<lparr>conns = [], pcs = {}, relay = []\<rparr>"

text \<open>Every registered connection is an object that exists.\<close>

definition well_formed :: "server \<Rightarrow> bool" where
  "well_formed s = (\<forall>c \<in> pcs s. c < length (conns s))"

text \<open>The methods of the Python set used on \<open>pcs\<close>; none of them raises.\<close>

definition pcs_add :: "server \<Rightarrow> nat \<Rightarrow> server" where
  "pcs_add s pc = s\<lparr>pcs := insert pc (pcs s)\<rparr>"

definition pcs_discard :: "server \<Rightarrow> nat \<Rightarrow> server" where
  "pcs_discard s pc = s\<lparr>pcs := pcs s - {pc}\<rparr>"

definition pcs_clear :: "server \<Rightarrow> server" where
  "pcs_clear s = s\<lparr>pcs := {}\<rparr>"

subsection \<open>The transport library\<close>

record OfferModel =
  sdp :: string
  type :: string

text \<open>
  The handlers catch nothing, so an exception of a transport call is the handler's own
  outcome. The error says which call raised: \<open>RTCSessionDescription(...)\<close>,
  \<open>pc.setRemoteDescription\<close>, \<open>pc.createAnswer\<close>, \<open>pc.setLocalDescription\<close> or
  \<open>pc.close\<close>.
\<close>

datatype error =
    DescriptionError
  | RemoteDescriptionError
  | AnswerError
  | LocalDescriptionError
  | CloseError

text \<open>
  \<^item> \<open>new_description sdp type\<close>: the constructor \<open>RTCSessionDescription\<close> returns;
  \<^item> \<open>setRemoteDescription offer\<close>: the inbound tracks for which the call emits a
    \<open>track\<close> event, and whether it returns;
  \<^item> \<open>createAnswer offer\<close>: the answer, or \<open>None\<close> when the call raises;
  \<^item> \<open>setLocalDescription answer\<close>: the resulting \<open>pc.localDescription\<close>, or \<open>None\<close>
    when the call raises;
  \<^item> \<open>close_returns pc\<close>: \<open>pc.close()\<close> returns.
\<close>

record transport =
  new_description :: "string \<Rightarrow> string \<Rightarrow> bool"
  setRemoteDescription :: "OfferModel \<Rightarrow> MediaStreamTrack list \<times> bool"
  createAnswer :: "OfferModel \<Rightarrow> OfferModel option"
  setLocalDescription :: "OfferModel \<Rightarrow> OfferModel option"
  close_returns :: "nat \<Rightarrow> bool"

text \<open>
  \<open>await pc.close()\<close>: one more call of the close routine; a close that returns leaves the
  connection in state \<open>closed\<close>. The result says whether the call returned.
\<close>

definition pc_close :: "transport \<Rightarrow> server \<Rightarrow> nat \<Rightarrow> bool \<times> server" where
  "pc_close tr s pc =
     (let p = conns s ! pc;
          p' = p\<lparr>close_calls := close_calls p + 1,
                 connectionState := (if close_returns tr pc then ''closed'' else connectionState p)\<rparr>
      in (close_returns tr pc, s\<lparr>conns := (conns s)[pc := p']\<rparr>))"

subsection \<open>The observers attached by the offer handler\<close>

text \<open>
  \<open>on_connectionstatechange\<close>: when the state is \<open>failed\<close>, close the connection, then
  discard it from \<open>pcs\<close>. An exception of \<open>close\<close> leaves the handler before the discard.
\<close>

definition on_connectionstatechange :: "transport \<Rightarrow> server \<Rightarrow> nat \<Rightarrow> (error + unit) \<times> server" where
  "on_connectionstatechange tr s pc =
     (if connectionState (conns s ! pc) = ''failed'' then
        (case pc_close tr s pc of
           (True, s') \<Rightarrow> (Inr (), pcs_discard s' pc)
         | (False, s') \<Rightarrow> (Inl CloseError, s'))
      else (Inr (), s))"

text \<open>\<open>relay.subscribe(track)\<close>: the relay records the source and hands out a proxy.\<close>

definition relay_subscribe :: "server \<Rightarrow> MediaStreamTrack \<Rightarrow> RelayStreamTrack \<times> server" where
  "relay_subscribe s t = (RelayStreamTrack t, s\<lparr>relay := relay s @ [t]\<rparr>)"

text \<open>\<open>pc.addTrack(t)\<close>: one more outbound track on the connection.\<close>

definition addTrack :: "server \<Rightarrow> nat \<Rightarrow> RelayStreamTrack VideoTransformTrack \<Rightarrow> server" where
  "addTrack s pc t =
     (let p = conns s ! pc in s\<lparr>conns := (conns s)[pc := p\<lparr>senders := senders p @ [t]\<rparr>]\<rparr>)"

text \<open>
  \<open>on_track\<close>: a video track is subscribed through the relay and the pass-through track
  around the proxy is added to the same connection; other kinds fall through.
\<close>

definition on_track :: "server \<Rightarrow> nat \<Rightarrow> MediaStreamTrack \<Rightarrow> server" where
  "on_track s pc t =
     (if kind t = ''video'' then
        (case relay_subscribe s t of
           (proxy, s') \<Rightarrow> addTrack s' pc (VideoTransformTrack_init proxy ''detect''))
      else s)"

subsection \<open>POST /offer\<close>

text \<open>
  The handler builds the session description, creates the connection, adds it to \<open>pcs\<close>,
  registers both observers, and only then negotiates. It has no \<open>try\<close>: an exception of
  a transport call leaves the handler with the state reached so far. The \<open>track\<close>
  events that the transport emits while the remote description is applied run
  \<open>on_track\<close> on the new connection. Between \<open>pcs.add(pc)\<close> and the first \<open>await\<close> no other
  handler can run, so no other handler sees the connection before both observers are
  registered.
\<close>

definition offer :: "transport \<Rightarrow> server \<Rightarrow> OfferModel \<Rightarrow> (error + OfferModel) \<times> server" where
  "offer tr s params =
     (if \<not> new_description tr (sdp params) (type params) then (Inl DescriptionError, s)
      else
        let offer = \<lparr>sdp = sdp params, type = type params\<rparr>;
            pc = length (conns s);
            s1 = s\<lparr>conns := conns s @ [RTCPeerConnection_init]\<rparr>;
            s2 = pcs_add s1 pc;
            s3 = s2\<lparr>conns := (conns s2)[pc := (conns s2 ! pc)\<lparr>on_connectionstatechange_set := True\<rparr>]\<rparr>;
            s4 = s3\<lparr>conns := (conns s3)[pc := (conns s3 ! pc)\<lparr>on_track_set := True\<rparr>]\<rparr>;
            (tracks, returned) = setRemoteDescription tr offer;
            s5 = fold (\<lambda>t s. on_track s pc t) tracks s4
        in if \<not> returned then (Inl RemoteDescriptionError, s5)
           else
             (case createAnswer tr offer of
                None \<Rightarrow> (Inl AnswerError, s5)
              | Some answer \<Rightarrow>
                  (case setLocalDescription tr answer of
                     None \<Rightarrow> (Inl LocalDescriptionError, s5)
                   | Some localDescription \<Rightarrow>
                       (Inr \<lparr>sdp = sdp localDescription, type = type localDescription\<rparr>, s5))))"

subsection \<open>Shutdown\<close>

text \<open>
  \<open>coros = [pc.close() for pc in pcs]\<close> fixes the connections to close before any of them
  runs; \<open>asyncio.gather\<close> runs every coroutine, the others too when one raises, and
  re-raises the first exception, in which case \<open>pcs.clear()\<close> is not reached. Each close
  touches its own connection only, so the order in which the set is read does not show in
  the result; the model reads it in ascending order.
\<close>

definition gather_close :: "transport \<Rightarrow> nat list \<Rightarrow> server \<Rightarrow> server" where
  "gather_close tr coros s = fold (\<lambda>pc s. snd (pc_close tr s pc)) coros s"

definition shutdown_event :: "transport \<Rightarrow> server \<Rightarrow> (error + unit) \<times> server" where
  "shutdown_event tr s =
     (let coros = sorted_list_of_set (pcs s);
          s' = gather_close tr coros s
      in if list_all (close_returns tr) coros then (Inr (), pcs_clear s')
         else (Inl CloseError, s'))"

section \<open>Detection requests (POST /detect)\<close>

subsection \<open>The Python built-ins the handler uses\<close>

text \<open>\<open>sub in s\<close> on strings: \<open>sub\<close> occurs somewhere in \<open>s\<close>.\<close>

fun str_contains :: "string \<Rightarrow> string \<Rightarrow> bool" where
  "str_contains sub [] = (sub = [])"
| "str_contains sub (c # cs) = (prefix sub (c # cs) \<or> str_contains sub cs)"

text \<open>
  \<open>s.split(sep)\<close>: the string is cut at every occurrence of \<open>sep\<close>, found from left to
  right; \<open>cur\<close> is the piece being read. Python raises \<open>ValueError\<close> on an empty separator.
\<close>

function split_from :: "string \<Rightarrow> string \<Rightarrow> string \<Rightarrow> string list" where
  "split_from sep cur [] = [cur]"
| "split_from sep cur (c # cs) =
     (if sep \<noteq> [] \<and> prefix sep (c # cs)
      then cur # split_from sep [] (drop (length sep) (c # cs))
      else split_from sep (cur @ [c]) cs)"
  by pat_completeness auto
termination
  by (relation "measure (\<lambda>(sep, cur, s). length s)") auto

definition str_split :: "string \<Rightarrow> string \<Rightarrow> string + string list" where
  "str_split s sep = (if sep = [] then Inl ''empty separator'' else Inr (split_from sep [] s))"

text \<open>
  \<open>xs[i]\<close> on a list: an index from \<open>-len(xs)\<close> up to \<open>-1\<close> counts from the end, an index
  beyond either end raises \<open>IndexError\<close>.
\<close>

definition list_getitem :: "'a list \<Rightarrow> int \<Rightarrow> string + 'a" where
  "list_getitem xs i =
     (if 0 \<le> i \<and> i < int (length xs) then Inr (xs ! nat i)
      else if - int (length xs) \<le> i \<and> i < 0 then Inr (xs ! nat (int (length xs) + i))
      else Inl ''list index out of range'')"

subsection \<open>Requests, engine output and responses\<close>

record DetectionRequest =
  image_field :: string
  queries :: "string list"

text \<open>The default of \<open>queries\<close> when the request leaves the field out.\<close>

definition default_queries :: "string list" where
  "default_queries =
     [''person'', ''car'', ''bicycle'', ''motorcycle'', ''bus'', ''truck'', ''dog'', ''cat'',
      ''laptop'', ''phone'', ''book'', ''chair'', ''table'', ''cup'', ''bottle'', ''Pen'']"

text \<open>
  One entry of \<open>result.boxes\<close>, as the handler reads it: \<open>int(box.cls[0])\<close>,
  \<open>float(box.conf[0])\<close> and the four numbers of \<open>box.xyxy[0].tolist()\<close>. A confidence is
  a finite float, that is a real number; 0.25 is one of them, so the comparison with the
  threshold is exact.
\<close>

record Box =
  cls :: int
  conf :: real
  xyxy :: "real \<times> real \<times> real \<times> real"

record detection_item =
  label :: string
  score :: real
  box :: "real list"

text \<open>
  What the handler returns: the dictionary \<open>{"detections": ...}\<close>, or
  \<open>JSONResponse(status_code, content={"error": ...})\<close>.
\<close>

datatype response = Detections "detection_item list" | JSONResponse nat string

text \<open>
  The calls that leave the handler; each returns a value or raises an exception, given by
  its message \<open>str(e)\<close>:
  \<^item> \<open>b64decode\<close>: \<open>base64.b64decode\<close>;
  \<^item> \<open>Image_open\<close>: \<open>Image.open(io.BytesIO(...)).convert("RGB")\<close> and \<open>np.array\<close>;
  \<^item> \<open>model\<close>: the YOLO model called with \<open>conf=0.25, iou=0.45\<close>; it yields a list of
    results, each with its \<open>boxes\<close> (or \<open>None\<close>).
\<close>

record 'img detector =
  b64decode :: "string \<Rightarrow> string + string"
  Image_open :: "string \<Rightarrow> string + 'img"
  model :: "'img \<Rightarrow> string + Box list option list"

definition class_names :: "string list" where
  "class_names =
     [''person'', ''bicycle'', ''car'', ''motorcycle'', ''airplane'', ''bus'', ''train'', ''truck'', ''boat'',
      ''traffic light'', ''fire hydrant'', ''stop sign'', ''parking meter'', ''bench'', ''bird'', ''cat'',
      ''dog'', ''horse'', ''sheep'', ''cow'', ''elephant'', ''bear'', ''zebra'', ''giraffe'', ''backpack'',
      ''umbrella'', ''handbag'', ''tie'', ''suitcase'', ''frisbee'', ''skis'', ''snowboard'', ''sports ball'',
      ''kite'', ''baseball bat'', ''baseball glove'', ''skateboard'', ''surfboard'', ''tennis racket'',
      ''bottle'', ''wine glass'', ''cup'', ''fork'', ''knife'', ''spoon'', ''bowl'', ''banana'', ''apple'',
      ''sandwich'', ''orange'', ''broccoli'', ''carrot'', ''hot dog'', ''pizza'', ''donut'', ''cake'',
      ''chair'', ''couch'', ''potted plant'', ''bed'', ''dining table'', ''toilet'', ''tv'', ''laptop'',
      ''mouse'', ''remote'', ''keyboard'', ''cell phone'', ''microwave'', ''oven'', ''toaster'', ''sink'',
      ''refrigerator'', ''book'', ''clock'', ''vase'', ''scissors'', ''teddy bear'', ''hair drier'',
      ''toothbrush'']"

subsection \<open>The handler\<close>

text \<open>
  The first statements of the \<open>try\<close> block: when \<open>"base64,"\<close> occurs in the payload, the
  payload becomes element 1 of its split at \<open>"base64,"\<close>.
\<close>

definition strip_base64_prefix :: "string \<Rightarrow> string + string" where
  "strip_base64_prefix image_data =
     (if str_contains ''base64,'' image_data then
        (case str_split image_data ''base64,'' of
           Inl e \<Rightarrow> Inl e
         | Inr parts \<Rightarrow> list_getitem parts 1)
      else Inr image_data)"

text \<open>
  The inner loop, \<open>for i, box in enumerate(boxes)\<close>: the label is looked up before the
  confidence is tested, so an index outside the table ends the loop with \<open>IndexError\<close>
  whatever the confidence.
\<close>

fun boxes_loop :: "Box list \<Rightarrow> detection_item list \<Rightarrow> string + detection_item list" where
  "boxes_loop [] detections = Inr detections"
| "boxes_loop (b # boxes) detections =
     (let class_id = cls b; confidence = conf b in
      case list_getitem class_names class_id of
        Inl e \<Rightarrow> Inl e
      | Inr class_name \<Rightarrow>
          if confidence > 0.25 then
            (case xyxy b of (x1, y1, x2, y2) \<Rightarrow>
               boxes_loop boxes
                 (detections @ [\<lparr>label = class_name, score = confidence, box = [x1, y1, x2, y2]\<rparr>]))
          else boxes_loop boxes detections)"

text \<open>The outer loop, \<open>for result in results\<close>, skipping a result whose boxes are \<open>None\<close>.\<close>

fun results_loop :: "Box list option list \<Rightarrow> detection_item list \<Rightarrow> string + detection_item list" where
  "results_loop [] detections = Inr detections"
| "results_loop (None # results) detections = results_loop results detections"
| "results_loop (Some boxes # results) detections =
     (case boxes_loop boxes detections of
        Inl e \<Rightarrow> Inl e
      | Inr detections' \<Rightarrow> results_loop results detections')"

text \<open>
  \<open>detect_objects\<close>: everything runs inside \<open>try\<close>, and \<open>except Exception as e\<close> turns
  any exception into \<open>JSONResponse(status_code=500, content={"error": str(e)})\<close>. The
  handler reads \<open>detection.queries\<close> into \<open>requested_objects\<close> and only prints it. It
  has no statement that touches \<open>pcs\<close> or \<open>relay\<close>.
\<close>

definition detect_objects :: "'img detector \<Rightarrow> server \<Rightarrow> DetectionRequest \<Rightarrow> response \<times> server" where
  "detect_objects det s detection =
     (let outcome =
        (case strip_base64_prefix (image_field detection) of
           Inl e \<Rightarrow> Inl e
         | Inr image_data \<Rightarrow>
             (case b64decode det image_data of
                Inl e \<Rightarrow> Inl e
              | Inr image_bytes \<Rightarrow>
                  (case Image_open det image_bytes of
                     Inl e \<Rightarrow> Inl e
                   | Inr img_array \<Rightarrow>
                       (case model det img_array of
                          Inl e \<Rightarrow> Inl e
                        | Inr results \<Rightarrow>
                            (let requested_objects = queries detection
                             in results_loop results [])))))
      in case outcome of
           Inl e \<Rightarrow> (JSONResponse 500 e, s)
         | Inr detections \<Rightarrow> (Detections detections, s))"

section \<open>Notions used to state the properties\<close>

text \<open>Reading \<open>n\<close> frames in a row from a pass-through track; stops at the first exception.\<close>

fun recv_n ::
  "('a \<Rightarrow> 'e + 'f \<times> 'a) \<Rightarrow> nat \<Rightarrow> 'a VideoTransformTrack \<Rightarrow> 'e + 'f list \<times> 'a VideoTransformTrack" where
  "recv_n src_recv 0 self = Inr ([], self)"
| "recv_n src_recv (Suc n) self =
     (case recv src_recv self of
        Inl e \<Rightarrow> Inl e
      | Inr (frame, self') \<Rightarrow>
          (case recv_n src_recv n self' of
             Inl e \<Rightarrow> Inl e
           | Inr (frames, self'') \<Rightarrow> Inr (frame # frames, self'')))"

text \<open>The same, read directly from the wrapped track.\<close>

fun src_recv_n :: "('a \<Rightarrow> 'e + 'f \<times> 'a) \<Rightarrow> nat \<Rightarrow> 'a \<Rightarrow> 'e + 'f list \<times> 'a" where
  "src_recv_n src_recv 0 t = Inr ([], t)"
| "src_recv_n src_recv (Suc n) t =
     (case src_recv t of
        Inl e \<Rightarrow> Inl e
      | Inr (frame, t') \<Rightarrow>
          (case src_recv_n src_recv n t' of
             Inl e \<Rightarrow> Inl e
           | Inr (frames, t'') \<Rightarrow> Inr (frame # frames, t'')))"

text \<open>A connection is observed when both of its event handlers are registered.\<close>

definition observed :: "RTCPeerConnection \<Rightarrow> bool" where
  "observed p = (on_connectionstatechange_set p \<and> on_track_set p)"

definition registered_and_observed :: "server \<Rightarrow> nat \<Rightarrow> bool" where
  "registered_and_observed s pc = (pc \<in> pcs s \<and> pc < length (conns s) \<and> observed (conns s ! pc))"

definition discarded :: "server \<Rightarrow> nat \<Rightarrow> bool" where
  "discarded s pc = (pc \<notin> pcs s)"

text \<open>What a query of the registry must never show: a member that is not observed.\<close>

definition partially_wired :: "server \<Rightarrow> nat \<Rightarrow> bool" where
  "partially_wired s pc = (pc \<in> pcs s \<and> \<not> (pc < length (conns s) \<and> observed (conns s ! pc)))"

text \<open>
  The state of the offer handler when negotiation starts: the new connection is stored,
  registered and observed.
\<close>

definition registered :: "server \<Rightarrow> server" where
  "registered s =
     s\<lparr>pcs := insert (length (conns s)) (pcs s),
       conns := conns s @ [RTCPeerConnection_init\<lparr>on_connectionstatechange_set := True, on_track_set := True\<rparr>]\<rparr>"

text \<open>The characters of base64 text, as an encoder produces it.\<close>

definition b64_alphabet :: "char set" where
  "b64_alphabet = set ''ABCDEFGHIJKLMNOPQRSTUVWXYZabcdefghijklmnopqrstuvwxyz0123456789+/=''"

text \<open>Every box of the engine's output, in the order the two loops visit them.\<close>

definition all_boxes :: "Box list option list \<Rightarrow> Box list" where
  "all_boxes results = concat (map (\<lambda>r. case r of None \<Rightarrow> [] | Some boxes \<Rightarrow> boxes) results)"

text \<open>The detection a box with a class index inside the table stands for.\<close>

definition detection_of :: "Box \<Rightarrow> detection_item" where
  "detection_of b =
     (case xyxy b of (x1, y1, x2, y2) \<Rightarrow>
        \<lparr>label = class_names ! nat (cls b), score = conf b, box = [x1, y1, x2, y2]\<rparr>)"

text \<open>
  What reaches the result loops: the engine's output for the decoded payload, or the
  exception of the first step that raised.
\<close>

definition engine_output :: "'img detector \<Rightarrow> DetectionRequest \<Rightarrow> string + Box list option list" where
  "engine_output det detection =
     (case strip_base64_prefix (image_field detection) of
        Inl e \<Rightarrow> Inl e
      | Inr image_data \<Rightarrow>
          (case b64decode det image_data of
             Inl e \<Rightarrow> Inl e
           | Inr image_bytes \<Rightarrow>
               (case Image_open det image_bytes of
                  Inl e \<Rightarrow> Inl e
                | Inr img_array \<Rightarrow> model det img_array)))"

text \<open>
  What the handler answers once the text \<open>B\<close> is what it hands to the decoder: decode,
  open the image, run the engine, run the result loops, and turn any exception into the
  status-500 response.
\<close>

definition decode_and_detect :: "'img detector \<Rightarrow> server \<Rightarrow> string \<Rightarrow> response \<times> server" where
  "decode_and_detect det s B =
     (case b64decode det B of
        Inl e \<Rightarrow> (JSONResponse 500 e, s)
      | Inr image_bytes \<Rightarrow>
          (case Image_open det image_bytes of
             Inl e \<Rightarrow> (JSONResponse 500 e, s)
           | Inr img_array \<Rightarrow>
               (case model det img_array of
                  Inl e \<Rightarrow> (JSONResponse 500 e, s)
                | Inr results \<Rightarrow>
                    (case results_loop results [] of
                       Inl e \<Rightarrow> (JSONResponse 500 e, s)
                     | Inr detections \<Rightarrow> (Detections detections, s)))))"

section \<open>Sample environments\<close>

text \<open>
  Two transports that accept the four description types of the library. The lenient one
  never raises afterwards and announces a video and an audio track; the strict one
  rejects an empty session body and cannot close connection 0.
\<close>

definition lenient_transport :: transport where
  "lenient_transport =
     \<lparr>new_description = (\<lambda>sdp type. type \<in> set [''offer'', ''pranswer'', ''answer'', ''rollback'']),
      setRemoteDescription =
        (\<lambda>d. ([\<lparr>track_id = 0, kind = ''video''\<rparr>, \<lparr>track_id = 1, kind = ''audio''\<rparr>], True)),
      createAnswer = (\<lambda>d. Some \<lparr>sdp = sdp d, type = ''answer''\<rparr>),
      setLocalDescription = Some,
      close_returns = (\<lambda>pc. True)\<rparr>"

definition strict_transport :: transport where
  "strict_transport =
     \<lparr>new_description = (\<lambda>sdp type. type \<in> set [''offer'', ''pranswer'', ''answer'', ''rollback'']),
      setRemoteDescription = (\<lambda>d. ([], sdp d \<noteq> [])),
      createAnswer = (\<lambda>d. Some \<lparr>sdp = sdp d, type = ''answer''\<rparr>),
      setLocalDescription = Some,
      close_returns = (\<lambda>pc. pc \<noteq> 0)\<rparr>"

text \<open>Two registered connections, the first in state \<open>failed\<close>, the second \<open>disconnected\<close>.\<close>

definition two_connections :: server where
  "two_connections =
     \<lparr>conns = [\<lparr>connectionState = ''failed'', on_connectionstatechange_set = True, on_track_set = True,
                senders = [], close_calls = 0\<rparr>,
               \<lparr>connectionState = ''disconnected'', on_connectionstatechange_set = True, on_track_set = True,
                senders = [], close_calls = 0\<rparr>],
      pcs = {0, 1}, relay = []\<rparr>"

text \<open>
  A detector whose image is the length of the payload: a payload of 4 characters yields
  one box exactly at the threshold, one of 8 yields three boxes in two results, one of 12
  yields a box of class 80 below the threshold.
\<close>

definition sample_detector :: "nat detector" where
  "sample_detector =
     \<lparr>b64decode = (\<lambda>s. if length s mod 4 = 0 then Inr s else Inl ''Incorrect padding''),
      Image_open = (\<lambda>bytes. if bytes = [] then Inl ''cannot identify image file'' else Inr (length bytes)),
      model = (\<lambda>img.
        if img = 4 then Inr [Some [\<lparr>cls = 0, conf = 0.25, xyxy = (0, 0, 10, 10)\<rparr>]]
        else if img = 8 then
          Inr [Some [\<lparr>cls = 0, conf = 0.9, xyxy = (1, 2, 3, 4)\<rparr>,
                     \<lparr>cls = 16, conf = 0.1, xyxy = (5, 5, 6, 6)\<rparr>],
               None,
               Some [\<lparr>cls = 79, conf = 0.3, xyxy = (0, 0, 2, 2)\<rparr>]]
        else if img = 12 then Inr [Some [\<lparr>cls = 80, conf = 0.1, xyxy = (0, 0, 1, 1)\<rparr>]]
        else Inl ''engine failure'')\<rparr>"

text \<open>A track that hands out the frames of a list and raises at its end.\<close>

definition list_source :: "nat list \<Rightarrow> string + nat \<times> nat list" where
  "list_source fs = (case fs of [] \<Rightarrow> Inl ''MediaStreamError'' | f # fs' \<Rightarrow> Inr (f, fs'))"

section \<open>The registry and the observers\<close>

text \<open>
  C8. For every connection and every registry state, discarding the connection twice
  leaves the registry after the second discard as it was after the first, and discarding
  a connection that is not registered changes nothing. The operation is a total function
  of the state: it has no error outcome.
\<close>

theorem pcs_discard_idempotent:
  "pcs_discard (pcs_discard s pc) pc = pcs_discard s pc \<and>
   (pc \<notin> pcs s \<longrightarrow> pcs_discard s pc = s)"
  by (simp add: pcs_discard_def)

theorem pcs_discard_idempotent_witness:
  "(2::nat) \<notin> pcs two_connections \<and>
   pcs_discard two_connections 2 = two_connections \<and>
   pcs_discard (pcs_discard two_connections 1) 1 = pcs_discard two_connections 1"
  using pcs_discard_idempotent [of two_connections 2] pcs_discard_idempotent [of two_connections 1]
  by (simp add: two_connections_def)

text \<open>
  C3, as amended. For every connection that exists: when its state is \<open>failed\<close>, the observer calls
  the connection's close routine once and, the close having returned, the connection is
  in state \<open>closed\<close> and gone from the registry, which is otherwise unchanged. In any
  other state, \<open>disconnected\<close> included, the observer returns with the state untouched:
  no close, no discard.
\<close>

theorem failed_state_teardown:
  assumes "pc < length (conns s)"
  shows "(connectionState (conns s ! pc) = ''failed'' \<longrightarrow>
            close_calls (conns (snd (on_connectionstatechange tr s pc)) ! pc) =
              close_calls (conns s ! pc) + 1 \<and>
            (close_returns tr pc \<longrightarrow>
               fst (on_connectionstatechange tr s pc) = Inr () \<and>
               connectionState (conns (snd (on_connectionstatechange tr s pc)) ! pc) = ''closed'' \<and>
               pc \<notin> pcs (snd (on_connectionstatechange tr s pc)) \<and>
               pcs (snd (on_connectionstatechange tr s pc)) = pcs s - {pc})) \<and>
         (connectionState (conns s ! pc) \<noteq> ''failed'' \<longrightarrow>
            on_connectionstatechange tr s pc = (Inr (), s))"
  using assms
  by (simp add: on_connectionstatechange_def pc_close_def pcs_discard_def Let_def)

theorem failed_state_teardown_witness:
  "(0::nat) < length (conns two_connections) \<and> (1::nat) < length (conns two_connections) \<and>
   connectionState (conns two_connections ! 0) = ''failed'' \<and>
   close_returns lenient_transport 0 \<and>
   close_calls (conns (snd (on_connectionstatechange lenient_transport two_connections 0)) ! 0) = 1 \<and>
   connectionState (conns (snd (on_connectionstatechange lenient_transport two_connections 0)) ! 0) =
     ''closed'' \<and>
   pcs (snd (on_connectionstatechange lenient_transport two_connections 0)) = {1} \<and>
   connectionState (conns two_connections ! 1) = ''disconnected'' \<and>
   on_connectionstatechange lenient_transport two_connections 1 = (Inr (), two_connections)"
proof -
  have h0: "(0::nat) < length (conns two_connections)"
    and h1: "(1::nat) < length (conns two_connections)"
    by (simp_all add: two_connections_def)
  have "pcs two_connections - {0} = {1}" by (auto simp: two_connections_def)
  with failed_state_teardown [OF h0, of lenient_transport]
    failed_state_teardown [OF h1, of lenient_transport]
  show ?thesis
    by (simp add: two_connections_def lenient_transport_def)
qed

text \<open>
  C3 as stated fails when the close raises: for a registered connection in state
  \<open>failed\<close> whose close routine is called and raises, the exception leaves the observer
  before the discard, and the connection is still in the registry.
\<close>

theorem failed_state_close_failure_counterexample:
  "connectionState (conns two_connections ! 0) = ''failed'' \<and>
   \<not> close_returns strict_transport 0 \<and>
   fst (on_connectionstatechange strict_transport two_connections 0) = Inl CloseError \<and>
   close_calls (conns (snd (on_connectionstatechange strict_transport two_connections 0)) ! 0) = 1 \<and>
   0 \<in> pcs (snd (on_connectionstatechange strict_transport two_connections 0)) \<and>
   pcs (snd (on_connectionstatechange strict_transport two_connections 0)) = pcs two_connections"
  by (simp add: on_connectionstatechange_def pc_close_def Let_def strict_transport_def
      two_connections_def)

lemma recv_n_src:
  "map_sum id (\<lambda>(frames, self'). (frames, track self')) (recv_n src_recv n self) =
   src_recv_n src_recv n (track self)"
proof (induction n arbitrary: self)
  case 0
  show ?case by simp
next
  case (Suc n)
  show ?case
  proof (cases "src_recv (track self)")
    case (Inl e)
    then show ?thesis by (simp add: recv_def)
  next
    case (Inr ft)
    obtain frame t' where ft: "ft = (frame, t')" by (cases ft)
    have "track (self\<lparr>track := t'\<rparr>) = t'" by simp
    with Suc [of "self\<lparr>track := t'\<rparr>"] Inr ft show ?thesis
      by (cases "recv_n src_recv n (self\<lparr>track := t'\<rparr>)")
         (auto simp: recv_def split: sum.splits prod.splits)
  qed
qed

text \<open>
  C9. For every connection that exists and every inbound track: a track of kind
  \<open>video\<close> is subscribed through the relay, and a pass-through track around the relay's
  proxy of that very track becomes one more outbound track of the same connection, no
  other connection and not the registry being touched; a track of any other kind leaves
  the whole state as it was. The pass-through track's \<open>recv\<close> returns the frame its
  wrapped track yields, and any number of reads returns the frames of the wrapped track
  in order, unmodified, an exception of the wrapped track included.
\<close>

theorem on_track_video_only:
  assumes "pc < length (conns s)"
  shows "(kind t = ''video'' \<longrightarrow>
            relay (on_track s pc t) = relay s @ [t] \<and>
            senders (conns (on_track s pc t) ! pc) =
              senders (conns s ! pc) @ [\<lparr>track = RelayStreamTrack t, transform = ''detect''\<rparr>] \<and>
            (\<forall>c. c \<noteq> pc \<longrightarrow> conns (on_track s pc t) ! c = conns s ! c) \<and>
            pcs (on_track s pc t) = pcs s) \<and>
         (kind t \<noteq> ''video'' \<longrightarrow> on_track s pc t = s) \<and>
         (\<forall>frame t'. src_recv (track self) = Inr (frame, t') \<longrightarrow>
            recv src_recv self = Inr (frame, self\<lparr>track := t'\<rparr>)) \<and>
         map_sum id (\<lambda>(frames, self'). (frames, track self')) (recv_n src_recv n self) =
           src_recv_n src_recv n (track self)"
  using assms
  by (simp add: recv_n_src on_track_def relay_subscribe_def addTrack_def Let_def
      VideoTransformTrack_init_def recv_def)

theorem on_track_video_only_witness:
  "(0::nat) < length (conns two_connections) \<and>
   kind \<lparr>track_id = 7, kind = ''video''\<rparr> = ''video'' \<and>
   relay (on_track two_connections 0 \<lparr>track_id = 7, kind = ''video''\<rparr>) =
     [\<lparr>track_id = 7, kind = ''video''\<rparr>] \<and>
   senders (conns (on_track two_connections 0 \<lparr>track_id = 7, kind = ''video''\<rparr>) ! 0) =
     [\<lparr>track = RelayStreamTrack \<lparr>track_id = 7, kind = ''video''\<rparr>, transform = ''detect''\<rparr>] \<and>
   kind \<lparr>track_id = 8, kind = ''audio''\<rparr> = ''audio'' \<and>
   on_track two_connections 0 \<lparr>track_id = 8, kind = ''audio''\<rparr> = two_connections \<and>
   list_source (track \<lparr>track = [5, 6], transform = ''detect''\<rparr>) = Inr (5, [6]) \<and>
   recv list_source \<lparr>track = [5, 6], transform = ''detect''\<rparr> =
     Inr (5, \<lparr>track = [6], transform = ''detect''\<rparr>)"
proof -
  have h: "(0::nat) < length (conns two_connections)" by (simp add: two_connections_def)
  have src: "list_source (track \<lparr>track = [5, 6], transform = ''detect''\<rparr>) = Inr (5, [6])"
    by (simp add: list_source_def)
  from on_track_video_only [OF h, of "\<lparr>track_id = 7, kind = ''video''\<rparr>" list_source
      "\<lparr>track = [5, 6], transform = ''detect''\<rparr>" 0]
    on_track_video_only [OF h, of "\<lparr>track_id = 8, kind = ''audio''\<rparr>" list_source
      "\<lparr>track = [5, 6], transform = ''detect''\<rparr>" 0]
    src h
  show ?thesis by (simp add: two_connections_def)
qed

section \<open>The offer handler\<close>

lemma pcs_on_track [simp]: "pcs (on_track s pc t) = pcs s"
  by (simp add: on_track_def relay_subscribe_def addTrack_def Let_def)

lemma length_conns_on_track [simp]: "length (conns (on_track s pc t)) = length (conns s)"
  by (simp add: on_track_def relay_subscribe_def addTrack_def Let_def)

lemma observed_on_track [simp]:
  "c < length (conns s) \<Longrightarrow> observed (conns (on_track s pc t) ! c) = observed (conns s ! c)"
  by (cases "c = pc") (simp_all add: on_track_def relay_subscribe_def addTrack_def Let_def observed_def)

lemma fold_on_track:
  "pcs (fold (\<lambda>t s. on_track s pc t) ts s) = pcs s \<and>
   length (conns (fold (\<lambda>t s. on_track s pc t) ts s)) = length (conns s) \<and>
   (\<forall>c < length (conns s).
      observed (conns (fold (\<lambda>t s. on_track s pc t) ts s) ! c) = observed (conns s ! c))"
  by (induction ts arbitrary: s) simp_all

lemma offer_state:
  "new_description tr (sdp params) (type params) \<Longrightarrow>
   snd (offer tr s params) =
     fold (\<lambda>t s'. on_track s' (length (conns s)) t)
       (fst (setRemoteDescription tr \<lparr>sdp = sdp params, type = type params\<rparr>)) (registered s)"
  by (simp add: offer_def Let_def pcs_add_def registered_def split: prod.splits option.splits)

lemma offer_rejected:
  "\<not> new_description tr (sdp params) (type params) \<Longrightarrow>
   offer tr s params = (Inl DescriptionError, s)"
  by (simp add: offer_def)

lemma offer_result:
  "new_description tr (sdp params) (type params) \<Longrightarrow>
   fst (offer tr s params) \<noteq> Inl DescriptionError"
  by (simp add: offer_def Let_def split: prod.splits option.splits)

lemma pcs_offer:
  "new_description tr (sdp params) (type params) \<Longrightarrow>
   pcs (snd (offer tr s params)) = insert (length (conns s)) (pcs s)"
  by (simp add: offer_state fold_on_track registered_def)

lemma wf_fresh: "well_formed s \<Longrightarrow> length (conns s) \<notin> pcs s"
  by (auto simp: well_formed_def)

lemma wf_finite: "well_formed s \<Longrightarrow> finite (pcs s)"
proof -
  assume "well_formed s"
  then have "pcs s \<subseteq> {..<length (conns s)}" by (auto simp: well_formed_def)
  then show ?thesis by (rule finite_subset) simp
qed

text \<open>
  C1, as amended. The handler has no check of its own on the session type or body. When
  building the session description raises, the handler fails before any connection
  exists and the state, the registry with it, is unchanged. When the description is
  built, whatever its body, the handler does not fail with that error and the new
  connection is in the registry when the handler returns or raises: the registry is the
  old one with the new connection added, one larger than before.
\<close>

theorem offer_registers_unless_description_rejected:
  "(\<not> new_description tr (sdp params) (type params) \<longrightarrow>
      offer tr s params = (Inl DescriptionError, s)) \<and>
   (new_description tr (sdp params) (type params) \<longrightarrow>
      fst (offer tr s params) \<noteq> Inl DescriptionError \<and>
      pcs (snd (offer tr s params)) = insert (length (conns s)) (pcs s) \<and>
      (well_formed s \<longrightarrow> card (pcs (snd (offer tr s params))) = Suc (card (pcs s))))"
  by (simp add: offer_rejected offer_result pcs_offer wf_fresh wf_finite)

theorem offer_registers_unless_description_rejected_witness:
  "\<not> new_description strict_transport (sdp \<lparr>sdp = ''v=0'', type = ''''\<rparr>)
       (type \<lparr>sdp = ''v=0'', type = ''''\<rparr>) \<and>
   offer strict_transport server_init \<lparr>sdp = ''v=0'', type = ''''\<rparr> =
     (Inl DescriptionError, server_init) \<and>
   new_description strict_transport (sdp \<lparr>sdp = '''', type = ''offer''\<rparr>)
     (type \<lparr>sdp = '''', type = ''offer''\<rparr>) \<and>
   well_formed server_init \<and>
   pcs (snd (offer strict_transport server_init \<lparr>sdp = '''', type = ''offer''\<rparr>)) = {0} \<and>
   card (pcs (snd (offer strict_transport server_init \<lparr>sdp = '''', type = ''offer''\<rparr>))) =
     Suc (card (pcs server_init))"
  using offer_registers_unless_description_rejected
      [of strict_transport "\<lparr>sdp = ''v=0'', type = ''''\<rparr>" server_init]
    offer_registers_unless_description_rejected
      [of strict_transport "\<lparr>sdp = '''', type = ''offer''\<rparr>" server_init]
  by (simp add: strict_transport_def server_init_def well_formed_def)

text \<open>
  C1 as stated fails for an offer with an empty body and the type \<open>offer\<close>: the
  description is built, the connection is registered, and the registry has grown from 0
  to 1 both when negotiation goes through and when applying the remote description
  raises.
\<close>

theorem offer_empty_body_counterexample:
  "sdp \<lparr>sdp = '''', type = ''offer''\<rparr> = '''' \<and>
   fst (offer lenient_transport server_init \<lparr>sdp = '''', type = ''offer''\<rparr>) =
     Inr \<lparr>sdp = '''', type = ''answer''\<rparr> \<and>
   card (pcs (snd (offer lenient_transport server_init \<lparr>sdp = '''', type = ''offer''\<rparr>))) = 1 \<and>
   fst (offer strict_transport server_init \<lparr>sdp = '''', type = ''offer''\<rparr>) =
     Inl RemoteDescriptionError \<and>
   card (pcs (snd (offer strict_transport server_init \<lparr>sdp = '''', type = ''offer''\<rparr>))) = 1 \<and>
   card (pcs server_init) = 0"
  by (simp add: offer_def lenient_transport_def strict_transport_def server_init_def pcs_add_def
      Let_def on_track_def relay_subscribe_def addTrack_def)

text \<open>
  C2. For every offer on which applying the remote description, creating the answer or
  applying the local description raises: when the handler has raised, the new connection
  is registered and observed or it is not in the registry, and if no member of the
  registry was partially wired before the call, none is after it. (The handler discards
  nothing: the connection is registered and observed before negotiation starts and stays
  so.)
\<close>

theorem offer_failure_not_partially_wired:
  assumes "offer tr s params = (Inl e, s')" and "e \<noteq> DescriptionError"
  shows "(registered_and_observed s' (length (conns s)) \<or> discarded s' (length (conns s))) \<and>
         ((\<forall>c \<in> pcs s. \<not> partially_wired s c) \<longrightarrow> (\<forall>c \<in> pcs s'. \<not> partially_wired s' c))"
proof -
  from assms have nd: "new_description tr (sdp params) (type params)"
    using offer_rejected [of tr params s] by auto
  let ?ts = "fst (setRemoteDescription tr \<lparr>sdp = sdp params, type = type params\<rparr>)"
  have s': "s' = fold (\<lambda>t s'. on_track s' (length (conns s)) t) ?ts (registered s)"
    using offer_state [OF nd, of s] assms(1) by simp
  have len: "length (conns s') = Suc (length (conns s))"
    and p: "pcs s' = insert (length (conns s)) (pcs s)"
    and obs: "\<And>c. c < Suc (length (conns s)) \<Longrightarrow>
      observed (conns s' ! c) = observed (conns (registered s) ! c)"
    using fold_on_track [of "length (conns s)" ?ts "registered s"] unfolding s'
    by (simp_all add: registered_def)
  have new: "observed (conns s' ! length (conns s))"
    using obs [of "length (conns s)"]
    by (simp add: registered_def observed_def RTCPeerConnection_init_def)
  have old: "observed (conns s' ! c) = observed (conns s ! c)" if "c < length (conns s)" for c
    using obs [of c] that by (simp add: registered_def nth_append)
  have "registered_and_observed s' (length (conns s))"
    by (simp add: registered_and_observed_def p len new)
  moreover have "\<forall>c \<in> pcs s'. \<not> partially_wired s' c" if inv: "\<forall>c \<in> pcs s. \<not> partially_wired s c"
  proof
    fix c assume "c \<in> pcs s'"
    then consider "c = length (conns s)" | "c \<in> pcs s" using p by auto
    then show "\<not> partially_wired s' c"
    proof cases
      case 1
      then show ?thesis by (simp add: partially_wired_def len new)
    next
      case 2
      with inv have "c < length (conns s)" "observed (conns s ! c)"
        by (auto simp: partially_wired_def)
      then show ?thesis by (simp add: partially_wired_def len old)
    qed
  qed
  ultimately show ?thesis by blast
qed

theorem offer_failure_not_partially_wired_witness:
  "fst (offer strict_transport two_connections \<lparr>sdp = '''', type = ''offer''\<rparr>) =
     Inl RemoteDescriptionError \<and>
   RemoteDescriptionError \<noteq> DescriptionError \<and>
   \<not> partially_wired two_connections 0 \<and> \<not> partially_wired two_connections 1 \<and>
   pcs (snd (offer strict_transport two_connections \<lparr>sdp = '''', type = ''offer''\<rparr>)) = {0, 1, 2} \<and>
   registered_and_observed
     (snd (offer strict_transport two_connections \<lparr>sdp = '''', type = ''offer''\<rparr>)) 2 \<and>
   \<not> partially_wired (snd (offer strict_transport two_connections \<lparr>sdp = '''', type = ''offer''\<rparr>)) 0 \<and>
   \<not> partially_wired (snd (offer strict_transport two_connections \<lparr>sdp = '''', type = ''offer''\<rparr>)) 1 \<and>
   \<not> partially_wired (snd (offer strict_transport two_connections \<lparr>sdp = '''', type = ''offer''\<rparr>)) 2"
proof -
  let ?r = "offer strict_transport two_connections \<lparr>sdp = '''', type = ''offer''\<rparr>"
  have res: "fst ?r = Inl RemoteDescriptionError"
    by (simp add: offer_def strict_transport_def Let_def)
  then have run: "?r = (Inl RemoteDescriptionError, snd ?r)" by (simp add: prod_eq_iff)
  have ne: "RemoteDescriptionError \<noteq> DescriptionError" by simp
  have inv: "\<forall>c \<in> pcs two_connections. \<not> partially_wired two_connections c"
    by (simp add: two_connections_def partially_wired_def observed_def)
  have len: "length (conns two_connections) = 2" by (simp add: two_connections_def)
  have p: "pcs (snd ?r) = {0, 1, 2}"
    using pcs_offer [of strict_transport "\<lparr>sdp = '''', type = ''offer''\<rparr>" two_connections]
    by (auto simp: strict_transport_def two_connections_def)
  from offer_failure_not_partially_wired [OF run ne] inv
  have "registered_and_observed (snd ?r) 2" "\<forall>c \<in> pcs (snd ?r). \<not> partially_wired (snd ?r) c"
    by (simp_all add: len discarded_def registered_and_observed_def p)
  with res p inv show ?thesis by (simp add: two_connections_def)
qed

section \<open>Shutdown\<close>

lemma pc_close_props:
  "pcs (snd (pc_close tr s pc)) = pcs s \<and> relay (snd (pc_close tr s pc)) = relay s \<and>
   length (conns (snd (pc_close tr s pc))) = length (conns s) \<and>
   (pc < length (conns s) \<longrightarrow>
      close_calls (conns (snd (pc_close tr s pc)) ! pc) = close_calls (conns s ! pc) + 1) \<and>
   (\<forall>c. c \<noteq> pc \<longrightarrow> conns (snd (pc_close tr s pc)) ! c = conns s ! c)"
  by (simp add: pc_close_def Let_def)

lemma gather_close_props:
  "distinct coros \<Longrightarrow> \<forall>c \<in> set coros. c < length (conns s) \<Longrightarrow>
   pcs (gather_close tr coros s) = pcs s \<and> relay (gather_close tr coros s) = relay s \<and>
   length (conns (gather_close tr coros s)) = length (conns s) \<and>
   (\<forall>c \<in> set coros.
      close_calls (conns (gather_close tr coros s) ! c) = close_calls (conns s ! c) + 1) \<and>
   (\<forall>c. c \<notin> set coros \<longrightarrow> conns (gather_close tr coros s) ! c = conns s ! c)"
proof (induction coros arbitrary: s)
  case Nil
  show ?case by (simp add: gather_close_def)
next
  case (Cons pc coros)
  let ?s1 = "snd (pc_close tr s pc)"
  have step: "gather_close tr (pc # coros) s = gather_close tr coros ?s1"
    by (simp add: gather_close_def)
  have pc: "pc < length (conns s)" "pc \<notin> set coros" "distinct coros"
    using Cons.prems by simp_all
  have "\<forall>c \<in> set coros. c < length (conns ?s1)"
    using Cons.prems(2) pc_close_props [of tr s pc] by simp
  from Cons.IH [OF pc(3) this] pc_close_props [of tr s pc] pc(1,2)
  show ?case unfolding step by auto
qed

text \<open>
  C4, as amended. For every well-formed state: the shutdown handler calls the close
  routine of every connection registered at the call exactly once more, also when the
  close of another connection raises, and of no other connection; when every close
  returns, the handler returns, the registry is empty afterwards, and a second call
  returns with the state unchanged, closing nothing.
\<close>

theorem shutdown_event_closes_all:
  assumes "well_formed s"
  shows "(\<forall>c \<in> pcs s.
            close_calls (conns (snd (shutdown_event tr s)) ! c) = close_calls (conns s ! c) + 1) \<and>
         (\<forall>c. c \<notin> pcs s \<longrightarrow> conns (snd (shutdown_event tr s)) ! c = conns s ! c) \<and>
         ((\<forall>c \<in> pcs s. close_returns tr c) \<longrightarrow>
            fst (shutdown_event tr s) = Inr () \<and>
            pcs (snd (shutdown_event tr s)) = {} \<and>
            shutdown_event tr (snd (shutdown_event tr s)) = (Inr (), snd (shutdown_event tr s)))"
proof -
  let ?coros = "sorted_list_of_set (pcs s)"
  let ?g = "gather_close tr ?coros s"
  have fin: "finite (pcs s)" using assms by (rule wf_finite)
  then have set: "set ?coros = pcs s" and dist: "distinct ?coros" by simp_all
  have "\<forall>c \<in> set ?coros. c < length (conns s)" using assms set by (simp add: well_formed_def)
  note g = gather_close_props [OF dist this, of tr, unfolded set]
  have conns: "conns (snd (shutdown_event tr s)) = conns ?g"
    by (simp add: shutdown_event_def Let_def pcs_clear_def)
  have all: "list_all (close_returns tr) ?coros = (\<forall>c \<in> pcs s. close_returns tr c)"
    using set by (simp add: list_all_iff)
  have again: "shutdown_event tr (pcs_clear ?g) = (Inr (), pcs_clear ?g)"
    by (simp add: shutdown_event_def pcs_clear_def gather_close_def)
  show ?thesis
    using g all again unfolding conns
    by (simp add: shutdown_event_def Let_def pcs_clear_def)
qed

theorem shutdown_event_closes_all_witness:
  "well_formed two_connections \<and>
   close_returns lenient_transport 0 \<and> close_returns lenient_transport 1 \<and>
   close_calls (conns (snd (shutdown_event lenient_transport two_connections)) ! 0) = 1 \<and>
   close_calls (conns (snd (shutdown_event lenient_transport two_connections)) ! 1) = 1 \<and>
   fst (shutdown_event lenient_transport two_connections) = Inr () \<and>
   pcs (snd (shutdown_event lenient_transport two_connections)) = {} \<and>
   shutdown_event lenient_transport (snd (shutdown_event lenient_transport two_connections)) =
     (Inr (), snd (shutdown_event lenient_transport two_connections))"
proof -
  have w: "well_formed two_connections" by (simp add: well_formed_def two_connections_def)
  have r: "\<forall>c \<in> pcs two_connections. close_returns lenient_transport c"
    by (simp add: lenient_transport_def)
  have c: "close_returns lenient_transport 0 \<and> close_returns lenient_transport 1"
    by (simp add: lenient_transport_def)
  from shutdown_event_closes_all [OF w, of lenient_transport] r w c show ?thesis
    by (simp add: two_connections_def)
qed

text \<open>
  C4 as stated fails when a close raises: with two registered connections of which the
  first cannot be closed, the handler raises, the registry still holds both connections
  afterwards, and a second call closes the second connection a second time.
\<close>

theorem shutdown_event_close_failure_counterexample:
  "\<not> close_returns strict_transport 0 \<and>
   fst (shutdown_event strict_transport two_connections) = Inl CloseError \<and>
   pcs (snd (shutdown_event strict_transport two_connections)) = {0, 1} \<and>
   close_calls (conns (snd (shutdown_event strict_transport
      (snd (shutdown_event strict_transport two_connections)))) ! 1) = 2"
  by (simp add: shutdown_event_def gather_close_def pc_close_def pcs_clear_def Let_def
      strict_transport_def two_connections_def)

section \<open>The detection handler\<close>

subsection \<open>The payload prefix\<close>

lemma comma_not_b64: "CHR '','' \<notin> b64_alphabet"
  by (simp add: b64_alphabet_def)

lemma str_contains_set: "str_contains sub s \<Longrightarrow> set sub \<subseteq> set s"
proof (induction s)
  case Nil
  then show ?case by simp
next
  case (Cons c cs)
  from Cons.prems have "prefix sub (c # cs) \<or> str_contains sub cs" by simp
  then show ?case
  proof
    assume "prefix sub (c # cs)"
    then show ?thesis by (rule set_mono_prefix)
  next
    assume "str_contains sub cs"
    with Cons.IH show ?thesis by auto
  qed
qed

lemma split_from_no_sep:
  "\<not> str_contains sep s \<Longrightarrow> split_from sep cur s = [cur @ s]"
  by (induction s arbitrary: cur) simp_all

lemma no_comma_no_marker: "CHR '','' \<notin> set B \<Longrightarrow> \<not> str_contains ''base64,'' B"
  using str_contains_set [of "''base64,''" B] by auto

lemma strip_bare: "CHR '','' \<notin> set B \<Longrightarrow> strip_base64_prefix B = Inr B"
  by (simp add: strip_base64_prefix_def no_comma_no_marker)

lemma contains_data_uri: "str_contains ''base64,'' (''data:image/png;base64,'' @ B)"
  by simp

lemma split_data_uri:
  assumes "CHR '','' \<notin> set B"
  shows "split_from ''base64,'' [] (''data:image/png;base64,'' @ B) = [''data:image/png;'', B]"
proof -
  have rest: "split_from ''base64,'' [] B = [B]"
    using split_from_no_sep [OF no_comma_no_marker [OF assms], of "[]"] by simp
  show ?thesis by (simp add: rest)
qed

lemma strip_data_uri:
  assumes "CHR '','' \<notin> set B"
  shows "strip_base64_prefix (''data:image/png;base64,'' @ B) = Inr B"
  unfolding strip_base64_prefix_def
  by (simp only: contains_data_uri if_True str_split_def split_data_uri [OF assms])
     (simp add: list_getitem_def)

lemma detect_objects_stripped:
  "strip_base64_prefix (image_field detection) = Inr B \<Longrightarrow>
   detect_objects det s detection = decode_and_detect det s B"
  by (simp add: detect_objects_def decode_and_detect_def Let_def split: sum.splits)

text \<open>
  C5. For every base64 text \<open>B\<close>: the handler strips the payload
  \<open>data:image/png;base64,B\<close> down to \<open>B\<close> before decoding and leaves the bare payload
  \<open>B\<close> as it is; in both cases its response is the one obtained by decoding \<open>B\<close>,
  opening the image, running the engine and collecting the detections, so both requests
  get the same response, with the same decoder, image library and engine.
\<close>

theorem data_uri_prefix_same_result:
  assumes "set B \<subseteq> b64_alphabet"
  shows "strip_base64_prefix (''data:image/png;base64,'' @ B) = Inr B \<and>
         strip_base64_prefix B = Inr B \<and>
         detect_objects det s \<lparr>image_field = ''data:image/png;base64,'' @ B, queries = q\<rparr> =
           decode_and_detect det s B \<and>
         detect_objects det s \<lparr>image_field = B, queries = q\<rparr> = decode_and_detect det s B \<and>
         detect_objects det s \<lparr>image_field = ''data:image/png;base64,'' @ B, queries = q\<rparr> =
           detect_objects det s \<lparr>image_field = B, queries = q\<rparr>"
proof -
  from assms comma_not_b64 have nc: "CHR '','' \<notin> set B" by auto
  have p: "strip_base64_prefix (image_field \<lparr>image_field = ''data:image/png;base64,'' @ B, queries = q\<rparr>) = Inr B"
    using strip_data_uri [OF nc] by simp
  have b: "strip_base64_prefix (image_field \<lparr>image_field = B, queries = q\<rparr>) = Inr B"
    using strip_bare [OF nc] by simp
  show ?thesis
    using detect_objects_stripped [OF p, of det s] detect_objects_stripped [OF b, of det s]
      strip_data_uri [OF nc] strip_bare [OF nc]
    by simp
qed

theorem data_uri_prefix_same_result_witness:
  "set ''AAAAAAAA'' \<subseteq> b64_alphabet \<and>
   strip_base64_prefix ''data:image/png;base64,AAAAAAAA'' = Inr ''AAAAAAAA'' \<and>
   strip_base64_prefix ''AAAAAAAA'' = Inr ''AAAAAAAA'' \<and>
   decode_and_detect sample_detector server_init ''AAAAAAAA'' =
     (Detections [\<lparr>label = ''person'', score = 0.9, box = [1, 2, 3, 4]\<rparr>,
                  \<lparr>label = ''toothbrush'', score = 0.3, box = [0, 0, 2, 2]\<rparr>], server_init) \<and>
   detect_objects sample_detector server_init
     \<lparr>image_field = ''data:image/png;base64,AAAAAAAA'', queries = default_queries\<rparr> =
     (Detections [\<lparr>label = ''person'', score = 0.9, box = [1, 2, 3, 4]\<rparr>,
                  \<lparr>label = ''toothbrush'', score = 0.3, box = [0, 0, 2, 2]\<rparr>], server_init) \<and>
   detect_objects sample_detector server_init
     \<lparr>image_field = ''AAAAAAAA'', queries = default_queries\<rparr> =
     (Detections [\<lparr>label = ''person'', score = 0.9, box = [1, 2, 3, 4]\<rparr>,
                  \<lparr>label = ''toothbrush'', score = 0.3, box = [0, 0, 2, 2]\<rparr>], server_init)"
proof -
  have a: "set ''AAAAAAAA'' \<subseteq> b64_alphabet" by (simp add: b64_alphabet_def)
  have d: "decode_and_detect sample_detector server_init ''AAAAAAAA'' =
     (Detections [\<lparr>label = ''person'', score = 0.9, box = [1, 2, 3, 4]\<rparr>,
                  \<lparr>label = ''toothbrush'', score = 0.3, box = [0, 0, 2, 2]\<rparr>], server_init)"
    by (simp add: decode_and_detect_def sample_detector_def list_getitem_def class_names_def)
  from data_uri_prefix_same_result [OF a, of sample_detector server_init default_queries] a d
  show ?thesis by simp
qed

subsection \<open>The result loops\<close>

lemma length_class_names: "length class_names = 80"
  by (simp add: class_names_def)

lemma detect_objects_engine:
  "detect_objects det s detection =
     (case engine_output det detection of
        Inl e \<Rightarrow> (JSONResponse 500 e, s)
      | Inr results \<Rightarrow>
          (case results_loop results [] of
             Inl e \<Rightarrow> (JSONResponse 500 e, s)
           | Inr detections \<Rightarrow> (Detections detections, s)))"
  by (simp add: detect_objects_def engine_output_def Let_def split: sum.splits)

lemma getitem_in_table:
  "0 \<le> i \<Longrightarrow> i < 80 \<Longrightarrow> list_getitem class_names i = Inr (class_names ! nat i)"
  by (simp add: list_getitem_def length_class_names)

lemma getitem_outside_table:
  "80 \<le> i \<or> i < - 80 \<Longrightarrow> list_getitem class_names i = Inl ''list index out of range''"
  by (auto simp: list_getitem_def length_class_names)

lemma getitem_error: "list_getitem xs i = Inl e \<Longrightarrow> e = ''list index out of range''"
  by (auto simp: list_getitem_def split: if_splits)

lemma boxes_loop_in_table:
  "\<forall>b \<in> set boxes. 0 \<le> cls b \<and> cls b < 80 \<Longrightarrow>
   boxes_loop boxes detections =
     Inr (detections @ map detection_of (filter (\<lambda>b. 1 / 4 < conf b) boxes))"
proof (induction boxes arbitrary: detections)
  case Nil
  show ?case by simp
next
  case (Cons b boxes)
  then have b: "list_getitem class_names (cls b) = Inr (class_names ! nat (cls b))"
    and rest: "\<forall>b \<in> set boxes. 0 \<le> cls b \<and> cls b < 80"
    by (simp_all add: getitem_in_table)
  show ?case
    by (cases "xyxy b") (simp add: b Cons.IH [OF rest] detection_of_def Let_def)
qed

lemma results_loop_in_table:
  "\<forall>b \<in> set (all_boxes results). 0 \<le> cls b \<and> cls b < 80 \<Longrightarrow>
   results_loop results detections =
     Inr (detections @ map detection_of (filter (\<lambda>b. 1 / 4 < conf b) (all_boxes results)))"
proof (induction results detections rule: results_loop.induct)
  case (1 detections)
  show ?case by (simp add: all_boxes_def)
next
  case (2 results detections)
  then show ?case by (simp add: all_boxes_def)
next
  case (3 boxes results detections)
  from "3.prems" have here: "\<forall>b \<in> set boxes. 0 \<le> cls b \<and> cls b < 80"
    and rest: "\<forall>b \<in> set (all_boxes results). 0 \<le> cls b \<and> cls b < 80"
    by (simp_all add: all_boxes_def)
  note bl = boxes_loop_in_table [OF here, of detections]
  from "3.IH" [OF bl rest] bl show ?case by (simp add: all_boxes_def)
qed

lemma boxes_loop_error:
  "boxes_loop boxes detections = Inl e \<Longrightarrow> e = ''list index out of range''"
proof (induction boxes arbitrary: detections)
  case Nil
  then show ?case by simp
next
  case (Cons b boxes)
  then show ?case
    by (cases "xyxy b")
       (auto simp: Let_def split: sum.splits if_splits dest: getitem_error)
qed

lemma boxes_loop_outside_table:
  "\<exists>b \<in> set boxes. 80 \<le> cls b \<or> cls b < - 80 \<Longrightarrow>
   boxes_loop boxes detections = Inl ''list index out of range''"
proof (induction boxes arbitrary: detections)
  case Nil
  then show ?case by simp
next
  case (Cons b boxes)
  show ?case
  proof (cases "list_getitem class_names (cls b)")
    case (Inl e)
    then show ?thesis using getitem_error [OF Inl] by (simp add: Let_def)
  next
    case (Inr name)
    then have "\<not> (80 \<le> cls b \<or> cls b < - 80)"
      using getitem_outside_table [of "cls b"] by auto
    with Cons.prems have "\<exists>b \<in> set boxes. 80 \<le> cls b \<or> cls b < - 80" by auto
    from Cons.IH [OF this] Inr show ?thesis
      by (cases "xyxy b") (simp add: Let_def)
  qed
qed

lemma results_loop_outside_table:
  "\<exists>b \<in> set (all_boxes results). 80 \<le> cls b \<or> cls b < - 80 \<Longrightarrow>
   results_loop results detections = Inl ''list index out of range''"
proof (induction results detections rule: results_loop.induct)
  case (1 detections)
  then show ?case by (simp add: all_boxes_def)
next
  case (2 results detections)
  then show ?case by (simp add: all_boxes_def)
next
  case (3 boxes results detections)
  show ?case
  proof (cases "boxes_loop boxes detections")
    case (Inl e)
    then show ?thesis using boxes_loop_error [OF Inl] by simp
  next
    case (Inr detections')
    then have "\<not> (\<exists>b \<in> set boxes. 80 \<le> cls b \<or> cls b < - 80)"
      using boxes_loop_outside_table [of boxes detections] by auto
    with "3.prems" have "\<exists>b \<in> set (all_boxes results). 80 \<le> cls b \<or> cls b < - 80"
      by (auto simp: all_boxes_def)
    from "3.IH" [OF Inr this] Inr show ?thesis by simp
  qed
qed

subsection \<open>The response\<close>

text \<open>
  C6, as amended. For every engine output whose class indices all lie in the label table
  (0 to 79), the response is the detection result that holds, in the engine's order,
  exactly the boxes whose confidence is strictly greater than 0.25, each as the label at
  its class index, its confidence as the score, and its four coordinates; a box whose
  confidence is 0.25 or less is left out.
\<close>

theorem detections_above_threshold:
  assumes "engine_output det detection = Inr results"
    and "\<forall>b \<in> set (all_boxes results). 0 \<le> cls b \<and> cls b < 80"
  shows "fst (detect_objects det s detection) =
           Detections (map detection_of (filter (\<lambda>b. 0.25 < conf b) (all_boxes results)))"
  using results_loop_in_table [OF assms(2), of "[]"] assms(1)
  by (simp add: detect_objects_engine)

theorem detections_above_threshold_witness:
  "engine_output sample_detector \<lparr>image_field = ''AAAAAAAA'', queries = []\<rparr> =
     Inr [Some [\<lparr>cls = 0, conf = 0.9, xyxy = (1, 2, 3, 4)\<rparr>,
                \<lparr>cls = 16, conf = 0.1, xyxy = (5, 5, 6, 6)\<rparr>],
          None,
          Some [\<lparr>cls = 79, conf = 0.3, xyxy = (0, 0, 2, 2)\<rparr>]] \<and>
   fst (detect_objects sample_detector server_init \<lparr>image_field = ''AAAAAAAA'', queries = []\<rparr>) =
     Detections [\<lparr>label = ''person'', score = 0.9, box = [1, 2, 3, 4]\<rparr>,
                 \<lparr>label = ''toothbrush'', score = 0.3, box = [0, 0, 2, 2]\<rparr>]"
proof -
  let ?results = "[Some [\<lparr>cls = 0, conf = 0.9, xyxy = (1, 2, 3, 4)\<rparr>,
                         \<lparr>cls = 16, conf = 0.1, xyxy = (5, 5, 6, 6)\<rparr>],
                   None,
                   Some [\<lparr>cls = 79, conf = 0.3, xyxy = (0, 0, 2, 2)\<rparr>]]"
  have out: "engine_output sample_detector \<lparr>image_field = ''AAAAAAAA'', queries = []\<rparr> = Inr ?results"
    by (simp add: engine_output_def sample_detector_def strip_base64_prefix_def)
  have tab: "\<forall>b \<in> set (all_boxes ?results). 0 \<le> cls b \<and> cls b < 80"
    by (simp add: all_boxes_def)
  have "class_names ! 0 = ''person''" "class_names ! 79 = ''toothbrush''"
    by (simp_all add: class_names_def)
  with detections_above_threshold [OF out tab, of server_init] out show ?thesis
    by (simp add: all_boxes_def detection_of_def)
qed

text \<open>
  C6 as stated fails in two places. A box of class 0 whose confidence is exactly 0.25 is
  not below the threshold, yet the response holds no detection. A box of class 80 whose
  confidence 0.1 is below the threshold is not simply left out: the label lookup raises
  before the confidence is tested, and the response is the error.
\<close>

theorem detections_threshold_counterexample:
  "engine_output sample_detector \<lparr>image_field = ''AAAA'', queries = []\<rparr> =
     Inr [Some [\<lparr>cls = 0, conf = 0.25, xyxy = (0, 0, 10, 10)\<rparr>]] \<and>
   \<not> conf \<lparr>cls = 0, conf = 0.25, xyxy = (0, 0, 10, 10)\<rparr> < 0.25 \<and>
   fst (detect_objects sample_detector server_init \<lparr>image_field = ''AAAA'', queries = []\<rparr>) =
     Detections [] \<and>
   engine_output sample_detector \<lparr>image_field = ''AAAAAAAAAAAA'', queries = []\<rparr> =
     Inr [Some [\<lparr>cls = 80, conf = 0.1, xyxy = (0, 0, 1, 1)\<rparr>]] \<and>
   fst (detect_objects sample_detector server_init \<lparr>image_field = ''AAAAAAAAAAAA'', queries = []\<rparr>) =
     JSONResponse 500 ''list index out of range''"
  by (simp add: detect_objects_engine engine_output_def sample_detector_def strip_base64_prefix_def
      list_getitem_def length_class_names)

text \<open>
  C7. For every payload and any two lists of queries, the handler's response and the
  state it leaves are the same: the queries take no part in the result.
\<close>

theorem queries_not_used:
  "detect_objects det s \<lparr>image_field = img, queries = q1\<rparr> =
   detect_objects det s \<lparr>image_field = img, queries = q2\<rparr>"
  by (simp add: detect_objects_engine engine_output_def)

theorem queries_not_used_witness:
  "detect_objects sample_detector server_init \<lparr>image_field = ''AAAAAAAA'', queries = [''zebra'']\<rparr> =
   detect_objects sample_detector server_init
     \<lparr>image_field = ''AAAAAAAA'', queries = default_queries\<rparr>"
  by (rule queries_not_used)

text \<open>
  C10. For every request, decoder, image library, engine and server state: the handler
  returns a response, either the detections or a response of status 500 with an error
  message, and leaves the server state, the registry and the relay in it, as it found
  it. An exception of decoding, of opening the image or of the engine becomes the
  status-500 response carrying its message; a class index beyond the 80 entries of the
  label table (80 or more, or less than -80) on any box becomes the status-500 response
  with the message of the failed lookup.
\<close>

theorem detect_objects_total:
  "snd (detect_objects det s detection) = s \<and>
   ((\<exists>detections. fst (detect_objects det s detection) = Detections detections) \<or>
    (\<exists>msg. fst (detect_objects det s detection) = JSONResponse 500 msg)) \<and>
   (\<forall>e. engine_output det detection = Inl e \<longrightarrow>
      fst (detect_objects det s detection) = JSONResponse 500 e) \<and>
   (\<forall>results. engine_output det detection = Inr results \<longrightarrow>
      (\<exists>b \<in> set (all_boxes results). 80 \<le> cls b \<or> cls b < - 80) \<longrightarrow>
      fst (detect_objects det s detection) = JSONResponse 500 ''list index out of range'')"
proof -
  have "fst (detect_objects det s detection) = JSONResponse 500 ''list index out of range''"
    if "engine_output det detection = Inr results"
      and "\<exists>b \<in> set (all_boxes results). 80 \<le> cls b \<or> cls b < - 80" for results
    using results_loop_outside_table [OF that(2), of "[]"] that(1)
    by (simp add: detect_objects_engine)
  moreover have "snd (detect_objects det s detection) = s"
    by (simp add: detect_objects_engine split: sum.splits)
  moreover have "(\<exists>detections. fst (detect_objects det s detection) = Detections detections) \<or>
    (\<exists>msg. fst (detect_objects det s detection) = JSONResponse 500 msg)"
    by (simp add: detect_objects_engine split: sum.splits)
  moreover have "fst (detect_objects det s detection) = JSONResponse 500 e"
    if "engine_output det detection = Inl e" for e
    using that by (simp add: detect_objects_engine)
  ultimately show ?thesis by blast
qed

theorem detect_objects_total_witness:
  "engine_output sample_detector \<lparr>image_field = ''AAA'', queries = []\<rparr> = Inl ''Incorrect padding'' \<and>
   detect_objects sample_detector two_connections \<lparr>image_field = ''AAA'', queries = []\<rparr> =
     (JSONResponse 500 ''Incorrect padding'', two_connections) \<and>
   engine_output sample_detector \<lparr>image_field = ''AAAAAAAAAAAA'', queries = []\<rparr> =
     Inr [Some [\<lparr>cls = 80, conf = 0.1, xyxy = (0, 0, 1, 1)\<rparr>]] \<and>
   detect_objects sample_detector two_connections \<lparr>image_field = ''AAAAAAAAAAAA'', queries = []\<rparr> =
     (JSONResponse 500 ''list index out of range'', two_connections)"
proof -
  have e1: "engine_output sample_detector \<lparr>image_field = ''AAA'', queries = []\<rparr> =
     Inl ''Incorrect padding''"
    by (simp add: engine_output_def sample_detector_def strip_base64_prefix_def)
  have e2: "engine_output sample_detector \<lparr>image_field = ''AAAAAAAAAAAA'', queries = []\<rparr> =
     Inr [Some [\<lparr>cls = 80, conf = 0.1, xyxy = (0, 0, 1, 1)\<rparr>]]"
    by (simp add: engine_output_def sample_detector_def strip_base64_prefix_def)
  have bad: "\<exists>b \<in> set (all_boxes [Some [\<lparr>cls = 80, conf = 0.1, xyxy = (0, 0, 1, 1)\<rparr>]]).
      80 \<le> cls b \<or> cls b < - 80"
    by (simp add: all_boxes_def)
  from detect_objects_total [of sample_detector two_connections "\<lparr>image_field = ''AAA'', queries = []\<rparr>"]
    detect_objects_total [of sample_detector two_connections
      "\<lparr>image_field = ''AAAAAAAAAAAA'', queries = []\<rparr>"]
    e1 e2 bad
  show ?thesis by (simp add: prod_eq_iff)
qed

section \<open>Every handler keeps the state well-formed\<close>

text \<open>
  The properties above that speak of a connection that exists, or of a well-formed state,
  hold in every state the server can reach: the initial state is well-formed and each
  handler keeps it so.
\<close>

lemma wf_server_init: "well_formed server_init"
  by (simp add: well_formed_def server_init_def)

lemma wf_on_track: "well_formed s \<Longrightarrow> well_formed (on_track s pc t)"
  by (simp add: well_formed_def)

lemma wf_offer: "well_formed s \<Longrightarrow> well_formed (snd (offer tr s params))"
proof (cases "new_description tr (sdp params) (type params)")
  case False
  assume "well_formed s"
  with False show ?thesis by (simp add: offer_rejected)
next
  case True
  assume "well_formed s"
  then show ?thesis
    using fold_on_track [of "length (conns s)"
        "fst (setRemoteDescription tr \<lparr>sdp = sdp params, type = type params\<rparr>)" "registered s"]
    by (auto simp: offer_state [OF True] well_formed_def registered_def)
qed

lemma wf_on_connectionstatechange: "well_formed s \<Longrightarrow> well_formed (snd (on_connectionstatechange tr s pc))"
  by (auto simp: well_formed_def on_connectionstatechange_def pc_close_def pcs_discard_def Let_def)

lemma wf_shutdown_event: "well_formed s \<Longrightarrow> well_formed (snd (shutdown_event tr s))"
proof -
  assume w: "well_formed s"
  let ?coros = "sorted_list_of_set (pcs s)"
  have fin: "finite (pcs s)" using w by (rule wf_finite)
  then have set: "set ?coros = pcs s" and dist: "distinct ?coros" by simp_all
  have "\<forall>c \<in> set ?coros. c < length (conns s)" using w set by (simp add: well_formed_def)
  note g = gather_close_props [OF dist this, of tr]
  with w show ?thesis
    by (auto simp: well_formed_def shutdown_event_def Let_def pcs_clear_def)
qed

lemma wf_detect_objects: "well_formed s \<Longrightarrow> well_formed (snd (detect_objects det s detection))"
  by (simp add: detect_objects_engine split: sum.splits)

end
